theory Spec2Isabelle
  imports Main "HOL-Library.Word" "HOL-Library.AList"
begin

section \<open>Logical clocks of \<^verbatim>\<open>clock.py\<close>: data model\<close>

text \<open>
  \<^verbatim>\<open>PID = uuid.UUID\<close>: a UUID is a 128-bit integer, and \<^verbatim>\<open>uuid.UUID\<close> compares
  (\<^verbatim>\<open>==\<close>, \<^verbatim>\<open><\<close>) by that integer, unsigned. Python's \<^verbatim>\<open>int\<close> counters are unbounded,
  hence \<^typ>\<open>int\<close>.
\<close>

type_synonym PID = "128 word"

text \<open>The exceptions the modelled code can raise.\<close>

datatype py_error = KeyError | AttributeError

subsection \<open>Python dictionaries\<close>

text \<open>
  A \<^verbatim>\<open>Dict[PID, int]\<close> is an association list in insertion order; a real dictionary
  holds every key once (\<open>is_dict\<close>). \<^verbatim>\<open>d[k] = v\<close> overwrites the entry of an existing
  key in place and appends a new key at the end, which is what \<^const>\<open>AList.update\<close> does.
\<close>

type_synonym dict = "(PID \<times> int) list"

definition is_dict :: "dict \<Rightarrow> bool" where
  "is_dict d = distinct (map fst d)"

definition dict_keys :: "dict \<Rightarrow> PID set" where
  "dict_keys d = set (map fst d)"

definition dict_getitem :: "dict \<Rightarrow> PID \<Rightarrow> py_error + int" where
  "dict_getitem d k = (case map_of d k of None \<Rightarrow> Inl KeyError | Some v \<Rightarrow> Inr v)"

definition dict_setitem :: "dict \<Rightarrow> PID \<Rightarrow> int \<Rightarrow> dict" where
  "dict_setitem d k v = AList.update k v d"

text \<open>\<^verbatim>\<open>d.get(k, default)\<close>.\<close>

definition dict_get :: "dict \<Rightarrow> PID \<Rightarrow> int \<Rightarrow> int" where
  "dict_get d k dflt = (case map_of d k of None \<Rightarrow> dflt | Some v \<Rightarrow> v)"

text \<open>
  \<^verbatim>\<open>collections.defaultdict(int)\<close>: reading a missing key stores the default \<^verbatim>\<open>int() = 0\<close>
  under that key and returns it.
\<close>

definition defaultdict_getitem :: "dict \<Rightarrow> PID \<Rightarrow> int \<times> dict" where
  "defaultdict_getitem d k =
     (case map_of d k of Some v \<Rightarrow> (v, d) | None \<Rightarrow> (0, dict_setitem d k 0))"

text \<open>
  \<^verbatim>\<open>a == b\<close> on dictionaries: the same number of entries, and every item of \<open>a\<close> is found
  in \<open>b\<close> with an equal value; the order of insertion plays no role.
\<close>

definition dict_eq :: "dict \<Rightarrow> dict \<Rightarrow> bool" where
  "dict_eq a b = (length a = length b \<and> list_all (\<lambda>(k, v). map_of b k = Some v) a)"

subsection \<open>Lamport time\<close>

text \<open>
  \<^verbatim>\<open>@dataclass(order=True, frozen=True) class _LamportTimeStamp\<close> with the fields
  \<^verbatim>\<open>counter\<close>, \<^verbatim>\<open>process_id\<close> in this order. The generated \<^verbatim>\<open>__lt__\<close> compares the tuples
  \<^verbatim>\<open>(counter, process_id)\<close>: the first position where the two differ decides.
\<close>

record LamportTimeStamp =
  ts_counter :: int
  ts_process_id :: PID

definition LamportTimeStamp_lt :: "LamportTimeStamp \<Rightarrow> LamportTimeStamp \<Rightarrow> bool" where
  "LamportTimeStamp_lt a b =
     (if ts_counter a \<noteq> ts_counter b then ts_counter a < ts_counter b
      else if ts_process_id a \<noteq> ts_process_id b then ts_process_id a < ts_process_id b
      else False)"

text \<open>
  \<^verbatim>\<open>_LamportExport(pid, ts)\<close>. Python checks no field type, so either field of a bundle
  handed to \<^verbatim>\<open>create_from_export\<close> may hold \<^verbatim>\<open>None\<close>: \<open>None\<close> below.
\<close>

record LamportExport =
  le_pid :: "PID option"
  le_ts :: "LamportTimeStamp option"

record LamportClock =
  lc_process_id :: PID
  lc_counter :: int

text \<open>
  \<^verbatim>\<open>__init__(self, process_id=None)\<close>; \<open>uuid4\<close> is the value \<^verbatim>\<open>uuid.uuid4()\<close> draws when
  no identity is passed.
\<close>

definition LamportClock_init :: "PID option \<Rightarrow> PID \<Rightarrow> LamportClock" where
  "LamportClock_init process_id uuid4 =
     \<lparr>lc_process_id = (case process_id of None \<Rightarrow> uuid4 | Some p \<Rightarrow> p), lc_counter = 0\<rparr>"

definition LamportClock_get_time :: "LamportClock \<Rightarrow> LamportClock \<times> LamportTimeStamp" where
  "LamportClock_get_time self =
     (let self' = self\<lparr>lc_counter := lc_counter self + 1\<rparr>
      in (self', \<lparr>ts_counter = lc_counter self', ts_process_id = lc_process_id self'\<rparr>))"

definition LamportClock_seen_time :: "LamportClock \<Rightarrow> LamportTimeStamp \<Rightarrow> LamportClock" where
  "LamportClock_seen_time self ts = self\<lparr>lc_counter := max (lc_counter self) (ts_counter ts)\<rparr>"

definition LamportClock_export :: "LamportClock \<Rightarrow> LamportClock \<times> LamportExport" where
  "LamportClock_export self =
     (let (self', t) = LamportClock_get_time self
      in (self', \<lparr>le_pid = Some (lc_process_id self), le_ts = Some t\<rparr>))"

text \<open>
  \<^verbatim>\<open>create_from_export\<close>: \<^verbatim>\<open>cls(process_id=export.pid)\<close> draws a new identity when the
  bundle's \<^verbatim>\<open>pid\<close> is \<^verbatim>\<open>None\<close>; \<^verbatim>\<open>c.seen_time(export.ts)\<close> reads \<^verbatim>\<open>ts.counter\<close>, which
  raises \<^verbatim>\<open>AttributeError\<close> on \<^verbatim>\<open>None\<close>.
\<close>

definition LamportClock_create_from_export :: "LamportExport \<Rightarrow> PID \<Rightarrow> py_error + LamportClock" where
  "LamportClock_create_from_export export uuid4 =
     (let c = LamportClock_init (le_pid export) uuid4
      in case le_ts export of
           None \<Rightarrow> Inl AttributeError
         | Some ts \<Rightarrow> Inr (LamportClock_seen_time c ts))"

subsection \<open>Vector time\<close>

datatype VectorTimeStamp = VectorTimeStamp (timestamps: dict)

text \<open>
  The loop of \<^verbatim>\<open>_VectorTimeStamp.__lt__\<close>: \<open>Inr False\<close> is the \<^verbatim>\<open>return False\<close> inside
  the loop, \<open>Inr True\<close> is the loop running to its end, and \<^verbatim>\<open>other.timestamps[pid]\<close>
  raises \<^verbatim>\<open>KeyError\<close> on a missing key.
\<close>

fun lt_loop :: "(PID \<times> int) list \<Rightarrow> dict \<Rightarrow> py_error + bool" where
  "lt_loop [] other = Inr True"
| "lt_loop ((pid, ts) # items) other =
     (case dict_getitem other pid of
        Inl e \<Rightarrow> Inl e
      | Inr ots \<Rightarrow> if ts > ots then Inr False else lt_loop items other)"

definition VectorTimeStamp_lt :: "VectorTimeStamp \<Rightarrow> VectorTimeStamp \<Rightarrow> py_error + bool" where
  "VectorTimeStamp_lt self other =
     (if dict_keys (timestamps self) \<subseteq> dict_keys (timestamps other) then
        (case lt_loop (timestamps self) (timestamps other) of
           Inl e \<Rightarrow> Inl e
         | Inr False \<Rightarrow> Inr False
         | Inr True \<Rightarrow> Inr (\<not> dict_eq (timestamps self) (timestamps other)))
      else Inr False)"

text \<open>\<^verbatim>\<open>eq=True\<close>: two vector timestamps are equal when their dictionaries are.\<close>

definition VectorTimeStamp_eq :: "VectorTimeStamp \<Rightarrow> VectorTimeStamp \<Rightarrow> bool" where
  "VectorTimeStamp_eq a b = dict_eq (timestamps a) (timestamps b)"

record VectorExport =
  ve_pid :: "PID option"
  ve_ts :: "VectorTimeStamp option"

record VectorClock =
  vc_process_id :: PID
  vc_clocks :: dict

definition VectorClock_init :: "PID option \<Rightarrow> PID \<Rightarrow> VectorClock" where
  "VectorClock_init process_id uuid4 =
     \<lparr>vc_process_id = (case process_id of None \<Rightarrow> uuid4 | Some p \<Rightarrow> p), vc_clocks = []\<rparr>"

text \<open>
  \<^verbatim>\<open>self.clocks[self.process_id] += 1\<close> reads the entry (the default dictionary creates
  it when missing) and stores the sum; the timestamp is a copy of the dictionary.
\<close>

definition VectorClock_get_time :: "VectorClock \<Rightarrow> VectorClock \<times> VectorTimeStamp" where
  "VectorClock_get_time self =
     (let (v, d) = defaultdict_getitem (vc_clocks self) (vc_process_id self);
          d' = dict_setitem d (vc_process_id self) (v + 1)
      in (self\<lparr>vc_clocks := d'\<rparr>, VectorTimeStamp d'))"

text \<open>One round of the loop of \<^verbatim>\<open>seen_time\<close>: \<^verbatim>\<open>self.clocks[pid] = max(self.clocks[pid], ts)\<close>.\<close>

definition seen_item :: "PID \<times> int \<Rightarrow> dict \<Rightarrow> dict" where
  "seen_item item clocks =
     (case item of (pid, ts) \<Rightarrow>
        (let (v, d) = defaultdict_getitem clocks pid in dict_setitem d pid (max v ts)))"

definition VectorClock_seen_time :: "VectorClock \<Rightarrow> VectorTimeStamp \<Rightarrow> VectorClock" where
  "VectorClock_seen_time self ts = self\<lparr>vc_clocks := fold seen_item (timestamps ts) (vc_clocks self)\<rparr>"

definition VectorClock_export :: "VectorClock \<Rightarrow> VectorClock \<times> VectorExport" where
  "VectorClock_export self =
     (let (self', t) = VectorClock_get_time self
      in (self', \<lparr>ve_pid = Some (vc_process_id self), ve_ts = Some t\<rparr>))"

text \<open>
  As for the Lamport clock; \<^verbatim>\<open>c.seen_time(export.ts)\<close> reads \<^verbatim>\<open>ts.timestamps\<close>, which
  raises \<^verbatim>\<open>AttributeError\<close> on \<^verbatim>\<open>None\<close>.
\<close>

definition VectorClock_create_from_export :: "VectorExport \<Rightarrow> PID \<Rightarrow> py_error + VectorClock" where
  "VectorClock_create_from_export export uuid4 =
     (let c = VectorClock_init (ve_pid export) uuid4
      in case ve_ts export of
           None \<Rightarrow> Inl AttributeError
         | Some ts \<Rightarrow> Inr (VectorClock_seen_time c ts))"

subsection \<open>Sequences of calls on one clock\<close>

text \<open>
  The calls a program can make on a clock instance. Running a list of them from a clock
  gives the clock's final state and the timestamps the instance returned on the way
  (by \<^verbatim>\<open>get_time\<close>, and inside the bundle of \<^verbatim>\<open>export\<close>), oldest first.
\<close>

datatype 'ts clock_call = Get_time | Seen_time 'ts | Export

fun LamportClock_call ::
  "LamportClock \<times> LamportTimeStamp list \<Rightarrow> LamportTimeStamp clock_call
     \<Rightarrow> LamportClock \<times> LamportTimeStamp list" where
  "LamportClock_call (c, returned) Get_time =
     (let (c', t) = LamportClock_get_time c in (c', returned @ [t]))"
| "LamportClock_call (c, returned) (Seen_time ts) = (LamportClock_seen_time c ts, returned)"
| "LamportClock_call (c, returned) Export =
     (let (c', e) = LamportClock_export c
      in (c', returned @ (case le_ts e of None \<Rightarrow> [] | Some t \<Rightarrow> [t])))"

definition LamportClock_run ::
  "LamportClock \<Rightarrow> LamportTimeStamp clock_call list \<Rightarrow> LamportClock \<times> LamportTimeStamp list" where
  "LamportClock_run c calls = foldl LamportClock_call (c, []) calls"

fun VectorClock_call ::
  "VectorClock \<times> VectorTimeStamp list \<Rightarrow> VectorTimeStamp clock_call
     \<Rightarrow> VectorClock \<times> VectorTimeStamp list" where
  "VectorClock_call (c, returned) Get_time =
     (let (c', t) = VectorClock_get_time c in (c', returned @ [t]))"
| "VectorClock_call (c, returned) (Seen_time ts) = (VectorClock_seen_time c ts, returned)"
| "VectorClock_call (c, returned) Export =
     (let (c', e) = VectorClock_export c
      in (c', returned @ (case ve_ts e of None \<Rightarrow> [] | Some t \<Rightarrow> [t])))"

definition VectorClock_run ::
  "VectorClock \<Rightarrow> VectorTimeStamp clock_call list \<Rightarrow> VectorClock \<times> VectorTimeStamp list" where
  "VectorClock_run c calls = foldl VectorClock_call (c, []) calls"

subsection \<open>Notions the properties are stated with\<close>

text \<open>
  The frontier \<open>after\<close> has grown from \<open>before\<close>: every key of \<open>before\<close> is still a key,
  with a value that is at least the old one.
\<close>

definition frontier_grows :: "dict \<Rightarrow> dict \<Rightarrow> bool" where
  "frontier_grows before after =
     (\<forall>k \<in> dict_keys before.
        case (map_of before k, map_of after k) of
          (Some v, Some w) \<Rightarrow> v \<le> w
        | _ \<Rightarrow> False)"

text \<open>
  The comparison rule in the words of the specification: \<open>A \<le> B\<close> when every key of \<open>A\<close>
  has a value in \<open>A\<close> that is at most its value in \<open>B\<close>, a key absent from \<open>B\<close> counting
  as 0; \<open>A < B\<close> when \<open>A \<le> B\<close> and \<open>A \<noteq> B\<close>.
\<close>

definition spec_vector_le :: "dict \<Rightarrow> dict \<Rightarrow> bool" where
  "spec_vector_le A B =
     (\<forall>k \<in> dict_keys A.
        case map_of A k of
          None \<Rightarrow> True
        | Some v \<Rightarrow> v \<le> (case map_of B k of None \<Rightarrow> 0 | Some w \<Rightarrow> w))"

definition spec_vector_lt :: "dict \<Rightarrow> dict \<Rightarrow> bool" where
  "spec_vector_lt A B = (spec_vector_le A B \<and> \<not> dict_eq A B)"

text \<open>
  What holds of a clock and the timestamps it has returned, after any sequence of calls:
  the identity is the one it started with, and no returned timestamp is ahead of the
  clock's state.
\<close>

definition LamportClock_inv :: "PID \<Rightarrow> LamportClock \<times> LamportTimeStamp list \<Rightarrow> bool" where
  "LamportClock_inv p s = (case s of (c, returned) \<Rightarrow>
     lc_process_id c = p \<and> (\<forall>h \<in> set returned. ts_process_id h = p \<and> ts_counter h \<le> lc_counter c))"

definition VectorClock_inv :: "PID \<Rightarrow> VectorClock \<times> VectorTimeStamp list \<Rightarrow> bool" where
  "VectorClock_inv p s = (case s of (c, returned) \<Rightarrow>
     vc_process_id c = p \<and> is_dict (vc_clocks c) \<and>
     (\<forall>h \<in> set returned. is_dict (timestamps h) \<and> frontier_grows (timestamps h) (vc_clocks c)))"

section \<open>Dictionaries and the comparison of vector timestamps\<close>

lemmas clock_eval =
  is_dict_def dict_keys_def dict_getitem_def dict_setitem_def dict_get_def defaultdict_getitem_def
  dict_eq_def LamportTimeStamp_lt_def LamportClock_init_def LamportClock_get_time_def
  LamportClock_seen_time_def LamportClock_export_def LamportClock_create_from_export_def
  VectorTimeStamp_lt_def VectorTimeStamp_eq_def VectorClock_init_def VectorClock_get_time_def
  seen_item_def VectorClock_seen_time_def VectorClock_export_def VectorClock_create_from_export_def
  LamportClock_run_def VectorClock_run_def Let_def

lemma dict_keys_dom: "dict_keys d = dom (map_of d)"
  by (simp add: dict_keys_def dom_map_of_conv_image_fst)

lemma map_of_setitem: "map_of (dict_setitem d k v) = (map_of d)(k \<mapsto> v)"
  by (simp add: dict_setitem_def update_conv')

lemma is_dict_setitem: "is_dict d \<Longrightarrow> is_dict (dict_setitem d k v)"
  by (simp add: dict_setitem_def is_dict_def distinct_update)

lemma dict_keys_setitem: "dict_keys (dict_setitem d k v) = insert k (dict_keys d)"
  by (simp add: dict_keys_dom map_of_setitem)

lemma length_is_dict: "is_dict d \<Longrightarrow> length d = card (dict_keys d)"
  unfolding is_dict_def dict_keys_def
  by (metis distinct_card length_map)

lemma dict_eq_map_of:
  assumes "is_dict a" "is_dict b"
  shows "dict_eq a b \<longleftrightarrow> map_of a = map_of b"
proof
  assume eq: "dict_eq a b"
  have sub: "map_of a \<subseteq>\<^sub>m map_of b"
    unfolding map_le_def
  proof
    fix k assume "k \<in> dom (map_of a)"
    then obtain v where v: "map_of a k = Some v" by auto
    then have "(k, v) \<in> set a" by (rule map_of_SomeD)
    with eq have "map_of b k = Some v"
      by (auto simp: dict_eq_def list_all_iff)
    with v show "map_of a k = map_of b k" by simp
  qed
  then have "dom (map_of a) \<subseteq> dom (map_of b)" by (rule map_le_implies_dom_le)
  moreover have "card (dom (map_of a)) = card (dom (map_of b))"
    using eq assms by (simp add: dict_eq_def length_is_dict [symmetric] dict_keys_dom [symmetric])
  ultimately have "dom (map_of a) = dom (map_of b)"
    by (simp add: card_subset_eq finite_dom_map_of)
  with sub show "map_of a = map_of b"
    by (metis map_le_antisym map_le_def)
next
  assume eq: "map_of a = map_of b"
  then have "dict_keys a = dict_keys b" by (simp add: dict_keys_dom)
  then have "length a = length b" using assms by (simp add: length_is_dict)
  moreover have "list_all (\<lambda>(k, v). map_of b k = Some v) a"
    using assms(1) eq [symmetric] by (auto simp: list_all_iff is_dict_def)
  ultimately show "dict_eq a b" by (simp add: dict_eq_def)
qed

lemma frontier_grows_iff:
  "frontier_grows a b \<longleftrightarrow> (\<forall>k v. map_of a k = Some v \<longrightarrow> (\<exists>w. map_of b k = Some w \<and> v \<le> w))"
proof
  assume g: "frontier_grows a b"
  show "\<forall>k v. map_of a k = Some v \<longrightarrow> (\<exists>w. map_of b k = Some w \<and> v \<le> w)"
  proof (intro allI impI)
    fix k v assume v: "map_of a k = Some v"
    then have "k \<in> dict_keys a" by (auto simp: dict_keys_dom)
    with g have "case (map_of a k, map_of b k) of (Some v, Some w) \<Rightarrow> v \<le> w | _ \<Rightarrow> False"
      unfolding frontier_grows_def by blast
    with v show "\<exists>w. map_of b k = Some w \<and> v \<le> w"
      by (cases "map_of b k") auto
  qed
next
  assume "\<forall>k v. map_of a k = Some v \<longrightarrow> (\<exists>w. map_of b k = Some w \<and> v \<le> w)"
  then show "frontier_grows a b"
    unfolding frontier_grows_def dict_keys_dom by fastforce
qed

lemma frontier_grows_refl: "frontier_grows a a"
  by (simp add: frontier_grows_iff)

lemma frontier_grows_trans: "frontier_grows a b \<Longrightarrow> frontier_grows b c \<Longrightarrow> frontier_grows a c"
  unfolding frontier_grows_iff by (meson order_trans)

lemma frontier_grows_keys: "frontier_grows a b \<Longrightarrow> dict_keys a \<subseteq> dict_keys b"
  unfolding frontier_grows_iff dict_keys_dom by blast

lemma lt_loop_iff:
  "fst ` set items \<subseteq> dict_keys other \<Longrightarrow>
   lt_loop items other = Inr (\<forall>(k, v) \<in> set items. \<forall>w. map_of other k = Some w \<longrightarrow> v \<le> w)"
proof (induction items)
  case Nil
  then show ?case by simp
next
  case (Cons item items)
  obtain pid ts where item: "item = (pid, ts)" by (cases item)
  from Cons.prems item obtain w where w: "map_of other pid = Some w"
    by (auto simp: dict_keys_dom)
  from Cons.prems have "fst ` set items \<subseteq> dict_keys other" by simp
  then have IH: "lt_loop items other = Inr (\<forall>(k, v) \<in> set items. \<forall>w. map_of other k = Some w \<longrightarrow> v \<le> w)"
    by (rule Cons.IH)
  show ?case
    by (simp add: item w dict_getitem_def IH)
qed

lemma VectorTimeStamp_lt_iff:
  assumes "is_dict (timestamps A)" "is_dict (timestamps B)"
  shows "VectorTimeStamp_lt A B =
    Inr (frontier_grows (timestamps A) (timestamps B) \<and> map_of (timestamps A) \<noteq> map_of (timestamps B))"
proof (cases "dict_keys (timestamps A) \<subseteq> dict_keys (timestamps B)")
  case False
  then have "\<not> frontier_grows (timestamps A) (timestamps B)"
    using frontier_grows_keys by blast
  with False show ?thesis by (simp add: VectorTimeStamp_lt_def)
next
  case True
  then have "fst ` set (timestamps A) \<subseteq> dict_keys (timestamps B)"
    by (simp add: dict_keys_def)
  then have loop: "lt_loop (timestamps A) (timestamps B) =
      Inr (\<forall>(k, v) \<in> set (timestamps A). \<forall>w. map_of (timestamps B) k = Some w \<longrightarrow> v \<le> w)"
    by (rule lt_loop_iff)
  have "(\<forall>(k, v) \<in> set (timestamps A). \<forall>w. map_of (timestamps B) k = Some w \<longrightarrow> v \<le> w)
      \<longleftrightarrow> frontier_grows (timestamps A) (timestamps B)"
  proof
    assume h: "\<forall>(k, v) \<in> set (timestamps A). \<forall>w. map_of (timestamps B) k = Some w \<longrightarrow> v \<le> w"
    show "frontier_grows (timestamps A) (timestamps B)"
      unfolding frontier_grows_iff
    proof (intro allI impI)
      fix k v assume v: "map_of (timestamps A) k = Some v"
      then have mem: "(k, v) \<in> set (timestamps A)" by (rule map_of_SomeD)
      then have "k \<in> dict_keys (timestamps B)" using True by (force simp: dict_keys_def)
      then obtain w where w: "map_of (timestamps B) k = Some w" by (auto simp: dict_keys_dom)
      with h mem show "\<exists>w. map_of (timestamps B) k = Some w \<and> v \<le> w" by auto
    qed
  next
    assume g: "frontier_grows (timestamps A) (timestamps B)"
    show "\<forall>(k, v) \<in> set (timestamps A). \<forall>w. map_of (timestamps B) k = Some w \<longrightarrow> v \<le> w"
    proof (clarify)
      fix k v w assume mem: "(k, v) \<in> set (timestamps A)" and w: "map_of (timestamps B) k = Some w"
      from mem assms(1) have "map_of (timestamps A) k = Some v" by (simp add: is_dict_def)
      with g w show "v \<le> w" unfolding frontier_grows_iff by fastforce
    qed
  qed
  with loop True show ?thesis
    by (simp add: VectorTimeStamp_lt_def dict_eq_map_of [OF assms] split: bool.splits)
qed

lemma VectorTimeStamp_lt_no_error: "VectorTimeStamp_lt A B \<noteq> Inl e"
proof (cases "dict_keys (timestamps A) \<subseteq> dict_keys (timestamps B)")
  case False
  then show ?thesis by (simp add: VectorTimeStamp_lt_def)
next
  case True
  then have "fst ` set (timestamps A) \<subseteq> dict_keys (timestamps B)"
    by (simp add: dict_keys_def)
  from lt_loop_iff [OF this] show ?thesis
    by (simp add: VectorTimeStamp_lt_def split: bool.splits)
qed


lemma frontier_grows_antisym:
  "frontier_grows a b \<Longrightarrow> frontier_grows b a \<Longrightarrow> map_of a = map_of b"
proof
  fix k assume ab: "frontier_grows a b" and ba: "frontier_grows b a"
  show "map_of a k = map_of b k"
  proof (cases "map_of a k")
    case None
    with ba show ?thesis unfolding frontier_grows_iff by (cases "map_of b k") fastforce+
  next
    case (Some v)
    with ab obtain w where w: "map_of b k = Some w" "v \<le> w"
      unfolding frontier_grows_iff by blast
    with ba Some have "w \<le> v" unfolding frontier_grows_iff by fastforce
    with w Some show ?thesis by simp
  qed
qed

subsection \<open>The default dictionary and the body of the loop of \<^verbatim>\<open>seen_time\<close>\<close>

lemma fst_defaultdict_getitem: "fst (defaultdict_getitem d k) = dict_get d k 0"
  by (simp add: defaultdict_getitem_def dict_get_def split: option.splits)

lemma map_of_defaultdict_getitem:
  "map_of (snd (defaultdict_getitem d k)) = (map_of d)(k \<mapsto> dict_get d k 0)"
  by (auto simp: defaultdict_getitem_def dict_get_def map_of_setitem split: option.splits)

lemma is_dict_defaultdict_getitem: "is_dict d \<Longrightarrow> is_dict (snd (defaultdict_getitem d k))"
  by (simp add: defaultdict_getitem_def is_dict_setitem split: option.splits)

lemma map_of_seen_item:
  "map_of (seen_item (k, v) d) = (map_of d)(k \<mapsto> max (dict_get d k 0) v)"
  by (simp add: seen_item_def split_beta fst_defaultdict_getitem map_of_setitem
      map_of_defaultdict_getitem)

lemma is_dict_seen_item: "is_dict d \<Longrightarrow> is_dict (seen_item item d)"
  by (cases item) (simp add: seen_item_def split_beta is_dict_setitem is_dict_defaultdict_getitem)

lemma frontier_grows_seen_item: "frontier_grows d (seen_item item d)"
  by (cases item) (auto simp: frontier_grows_iff map_of_seen_item dict_get_def)

lemma seen_item_covered:
  "map_of d k = Some w \<Longrightarrow> v \<le> w \<Longrightarrow> seen_item (k, v) d = d"
  by (simp add: seen_item_def defaultdict_getitem_def dict_setitem_def max_absorb1 update_triv)

lemma is_dict_fold_seen_item: "is_dict d \<Longrightarrow> is_dict (fold seen_item ts d)"
  by (induction ts arbitrary: d) (simp_all add: is_dict_seen_item)

lemma frontier_grows_fold_seen_item: "frontier_grows d (fold seen_item ts d)"
proof (induction ts arbitrary: d)
  case Nil
  show ?case by (simp add: frontier_grows_refl)
next
  case (Cons item ts)
  have "frontier_grows d (seen_item item d)" by (rule frontier_grows_seen_item)
  moreover have "frontier_grows (seen_item item d) (fold seen_item ts (seen_item item d))"
    by (rule Cons.IH)
  ultimately show ?case by (simp add: frontier_grows_trans)
qed

lemma fold_seen_item_covers:
  "(k, v) \<in> set ts \<Longrightarrow> \<exists>w. map_of (fold seen_item ts d) k = Some w \<and> v \<le> w"
proof (induction ts arbitrary: d)
  case Nil
  then show ?case by simp
next
  case (Cons item ts)
  show ?case
  proof (cases "(k, v) = item")
    case True
    then have "map_of (seen_item item d) k = Some (max (dict_get d k 0) v)"
      by (auto simp: map_of_seen_item)
    moreover have "frontier_grows (seen_item item d) (fold seen_item ts (seen_item item d))"
      by (rule frontier_grows_fold_seen_item)
    ultimately obtain w where "map_of (fold seen_item ts (seen_item item d)) k = Some w"
      "max (dict_get d k 0) v \<le> w"
      unfolding frontier_grows_iff by blast
    then show ?thesis by auto
  next
    case False
    with Cons.prems have "(k, v) \<in> set ts" by auto
    from Cons.IH [OF this] show ?thesis by simp
  qed
qed

lemma frontier_grows_seen: "frontier_grows ts (fold seen_item ts d)"
  unfolding frontier_grows_iff
  by (meson fold_seen_item_covers map_of_SomeD)

lemma fold_seen_item_covered:
  "\<forall>(k, v) \<in> set ts. \<exists>w. map_of d k = Some w \<and> v \<le> w \<Longrightarrow> fold seen_item ts d = d"
proof (induction ts)
  case Nil
  show ?case by simp
next
  case (Cons item ts)
  obtain k v where item: "item = (k, v)" by (cases item)
  with Cons.prems obtain w where "map_of d k = Some w" "v \<le> w" by auto
  then have "seen_item item d = d" unfolding item by (rule seen_item_covered)
  moreover from Cons.prems have "fold seen_item ts d = d" by (intro Cons.IH) auto
  ultimately show ?case by simp
qed

lemma fold_seen_item_idem: "fold seen_item ts (fold seen_item ts d) = fold seen_item ts d"
  by (rule fold_seen_item_covered) (auto dest: fold_seen_item_covers)

lemma map_of_fold_seen_item:
  "is_dict ts \<Longrightarrow> map_of (fold seen_item ts d) k =
     (case map_of ts k of None \<Rightarrow> map_of d k | Some v \<Rightarrow> Some (max (dict_get d k 0) v))"
proof (induction ts arbitrary: d)
  case Nil
  show ?case by simp
next
  case (Cons item ts)
  obtain k' v' where item: "item = (k', v')" by (cases item)
  from Cons.prems item have d: "is_dict ts" and fresh: "map_of ts k' = None"
    by (auto simp: is_dict_def map_of_eq_None_iff)
  show ?case
    using fresh by (auto simp: item Cons.IH [OF d] map_of_seen_item dict_get_def split: option.splits)
qed

subsection \<open>Vector clock operations\<close>

lemma VectorClock_get_time_conv:
  "VectorClock_get_time c = (c', t) \<Longrightarrow>
     timestamps t = vc_clocks c' \<and> vc_process_id c' = vc_process_id c \<and>
     map_of (vc_clocks c') =
       (map_of (vc_clocks c))(vc_process_id c \<mapsto> dict_get (vc_clocks c) (vc_process_id c) 0 + 1)"
  by (auto simp: VectorClock_get_time_def split_beta Let_def map_of_setitem
      fst_defaultdict_getitem map_of_defaultdict_getitem)

lemma is_dict_get_time:
  "VectorClock_get_time c = (c', t) \<Longrightarrow> is_dict (vc_clocks c) \<Longrightarrow> is_dict (vc_clocks c')"
  by (auto simp: VectorClock_get_time_def split_beta Let_def is_dict_setitem
      is_dict_defaultdict_getitem)

lemma frontier_grows_get_time:
  "VectorClock_get_time c = (c', t) \<Longrightarrow> frontier_grows (vc_clocks c) (vc_clocks c')"
  by (drule VectorClock_get_time_conv) (auto simp: frontier_grows_iff dict_get_def)

lemma VectorClock_get_time_gt:
  assumes get: "VectorClock_get_time c = (c', t)"
    and c: "is_dict (vc_clocks c)" and h: "is_dict (timestamps h)"
    and le: "frontier_grows (timestamps h) (vc_clocks c)"
  shows "VectorTimeStamp_lt h t = Inr True"
proof -
  let ?p = "vc_process_id c"
  note conv = VectorClock_get_time_conv [OF get]
  have t: "is_dict (timestamps t)" using is_dict_get_time [OF get c] conv by simp
  have "frontier_grows (timestamps h) (timestamps t)"
    using le frontier_grows_get_time [OF get] conv by (auto intro: frontier_grows_trans)
  moreover have "map_of (timestamps h) \<noteq> map_of (timestamps t)"
  proof
    assume eq: "map_of (timestamps h) = map_of (timestamps t)"
    have tp: "map_of (timestamps t) ?p = Some (dict_get (vc_clocks c) ?p 0 + 1)"
      using conv by simp
    with eq have "map_of (timestamps h) ?p = Some (dict_get (vc_clocks c) ?p 0 + 1)" by simp
    with le obtain w where "map_of (vc_clocks c) ?p = Some w" "dict_get (vc_clocks c) ?p 0 + 1 \<le> w"
      unfolding frontier_grows_iff by blast
    then show False by (simp add: dict_get_def)
  qed
  ultimately show ?thesis by (simp add: VectorTimeStamp_lt_iff [OF h t])
qed

lemma VectorClock_export_conv:
  "VectorClock_export c = (c', e) \<Longrightarrow>
     \<exists>t. VectorClock_get_time c = (c', t) \<and> ve_pid e = Some (vc_process_id c) \<and> ve_ts e = Some t"
  by (auto simp: VectorClock_export_def split: prod.splits)

lemma LamportClock_export_conv:
  "LamportClock_export c = (c', e) \<Longrightarrow>
     \<exists>t. LamportClock_get_time c = (c', t) \<and> le_pid e = Some (lc_process_id c) \<and> le_ts e = Some t"
  by (auto simp: LamportClock_export_def split: prod.splits)

lemma LamportClock_get_time_conv:
  "LamportClock_get_time c = (c', t) \<Longrightarrow>
     lc_process_id c' = lc_process_id c \<and> lc_counter c' = lc_counter c + 1 \<and>
     ts_process_id t = lc_process_id c \<and> ts_counter t = lc_counter c + 1"
  by (auto simp: LamportClock_get_time_def Let_def)

lemma LamportTimeStamp_lt_counter: "ts_counter a < ts_counter b \<Longrightarrow> LamportTimeStamp_lt a b"
  by (simp add: LamportTimeStamp_lt_def)

subsection \<open>The invariants hold after any sequence of calls\<close>

lemma LamportClock_inv_call: "LamportClock_inv p s \<Longrightarrow> LamportClock_inv p (LamportClock_call s call)"
proof (cases s)
  case (Pair c returned)
  assume "LamportClock_inv p s"
  with Pair show ?thesis
    by (cases call)
      (auto simp: LamportClock_inv_def LamportClock_get_time_def LamportClock_seen_time_def
        LamportClock_export_def Let_def)
qed

lemma LamportClock_inv_run:
  "LamportClock_run c calls = (c', returned) \<Longrightarrow> LamportClock_inv (lc_process_id c) (c', returned)"
proof (induction calls arbitrary: c' returned rule: rev_induct)
  case Nil
  then show ?case by (simp add: LamportClock_run_def LamportClock_inv_def)
next
  case (snoc call calls)
  obtain c1 r1 where s: "LamportClock_run c calls = (c1, r1)" by (cases "LamportClock_run c calls")
  from snoc.IH [OF s] have "LamportClock_inv (lc_process_id c) (LamportClock_call (c1, r1) call)"
    by (rule LamportClock_inv_call)
  with snoc.prems s show ?case by (simp add: LamportClock_run_def)
qed

lemma VectorClock_inv_call: "VectorClock_inv p s \<Longrightarrow> VectorClock_inv p (VectorClock_call s call)"
proof (cases s)
  case (Pair c returned)
  assume inv: "VectorClock_inv p s"
  show ?thesis
  proof (cases call)
    case Get_time
    obtain c' t where get: "VectorClock_get_time c = (c', t)" by (cases "VectorClock_get_time c")
    note conv = VectorClock_get_time_conv [OF get]
    from inv Pair have "is_dict (vc_clocks c')" by (auto simp: VectorClock_inv_def intro: is_dict_get_time [OF get])
    moreover have "frontier_grows (vc_clocks c) (vc_clocks c')" by (rule frontier_grows_get_time [OF get])
    ultimately show ?thesis using inv Pair Get_time get conv
      by (auto simp: VectorClock_inv_def frontier_grows_refl intro: frontier_grows_trans)
  next
    case (Seen_time ts)
    have "frontier_grows (vc_clocks c) (fold seen_item (timestamps ts) (vc_clocks c))"
      by (rule frontier_grows_fold_seen_item)
    then show ?thesis using inv Pair Seen_time
      by (auto simp: VectorClock_inv_def VectorClock_seen_time_def is_dict_fold_seen_item
          intro: frontier_grows_trans)
  next
    case Export
    obtain c' e where ex: "VectorClock_export c = (c', e)" by (cases "VectorClock_export c")
    from VectorClock_export_conv [OF ex] obtain t where
      get: "VectorClock_get_time c = (c', t)" and e: "ve_ts e = Some t" by blast
    note conv = VectorClock_get_time_conv [OF get]
    from inv Pair have "is_dict (vc_clocks c')" by (auto simp: VectorClock_inv_def intro: is_dict_get_time [OF get])
    moreover have "frontier_grows (vc_clocks c) (vc_clocks c')" by (rule frontier_grows_get_time [OF get])
    ultimately show ?thesis using inv Pair Export ex e conv
      by (auto simp: VectorClock_inv_def frontier_grows_refl intro: frontier_grows_trans)
  qed
qed

lemma VectorClock_inv_run:
  "is_dict (vc_clocks c) \<Longrightarrow> VectorClock_run c calls = (c', returned) \<Longrightarrow>
     VectorClock_inv (vc_process_id c) (c', returned)"
proof (induction calls arbitrary: c' returned rule: rev_induct)
  case Nil
  then show ?case by (simp add: VectorClock_run_def VectorClock_inv_def)
next
  case (snoc call calls)
  obtain c1 r1 where s: "VectorClock_run c calls = (c1, r1)" by (cases "VectorClock_run c calls")
  from snoc.IH [OF snoc.prems(1) s] have "VectorClock_inv (vc_process_id c) (VectorClock_call (c1, r1) call)"
    by (rule VectorClock_inv_call)
  with snoc.prems s show ?case by (simp add: VectorClock_run_def)
qed

subsection \<open>The comparison rule of the specification, and merging twice\<close>

lemma spec_vector_le_iff:
  assumes "dict_keys A \<subseteq> dict_keys B"
  shows "spec_vector_le A B = frontier_grows A B"
  unfolding spec_vector_le_def frontier_grows_def
proof (rule ball_cong [OF refl])
  fix k assume "k \<in> dict_keys A"
  with assms obtain v w where "map_of A k = Some v" "map_of B k = Some w"
    unfolding dict_keys_dom by blast
  then show "(case map_of A k of None \<Rightarrow> True
       | Some v \<Rightarrow> v \<le> (case map_of B k of None \<Rightarrow> 0 | Some w \<Rightarrow> w)) =
      (case (map_of A k, map_of B k) of (Some v, Some w) \<Rightarrow> v \<le> w | _ \<Rightarrow> False)"
    by simp
qed

lemma map_of_seen_twice:
  assumes "is_dict ta" and "is_dict tb"
  shows "map_of (fold seen_item tb (fold seen_item ta d)) =
    map_of (fold seen_item ta (fold seen_item tb d))"
proof
  fix k
  show "map_of (fold seen_item tb (fold seen_item ta d)) k =
    map_of (fold seen_item ta (fold seen_item tb d)) k"
    by (simp add: map_of_fold_seen_item [OF assms(1)] map_of_fold_seen_item [OF assms(2)]
        dict_get_def max.assoc max.commute max.left_commute split: option.splits)
qed

lemma frontier_grows_Nil: "frontier_grows [] d"
  by (simp add: frontier_grows_iff)

section \<open>The properties\<close>

text \<open>
  Claim C1 (local monotonicity). For a clock of either kind, in any state, two successive
  calls of \<^verbatim>\<open>get_time\<close> return \<open>t1\<close> and then \<open>t2\<close> with \<open>t1 < t2\<close> in the order of
  the timestamp type: the generated tuple order for Lamport time, \<^verbatim>\<open>__lt__\<close> (which
  returns \<^verbatim>\<open>True\<close> and raises nothing) for vector time.
\<close>

theorem local_monotonicity:
  "(let (c1, t1) = LamportClock_get_time c; (c2, t2) = LamportClock_get_time c1
    in LamportTimeStamp_lt t1 t2) \<and>
   (is_dict (vc_clocks v) \<longrightarrow>
     (let (v1, u1) = VectorClock_get_time v; (v2, u2) = VectorClock_get_time v1
      in VectorTimeStamp_lt u1 u2 = Inr True))"
proof (intro conjI impI)
  show "let (c1, t1) = LamportClock_get_time c; (c2, t2) = LamportClock_get_time c1
    in LamportTimeStamp_lt t1 t2"
    by (simp add: LamportClock_get_time_def LamportTimeStamp_lt_def Let_def)
next
  assume v: "is_dict (vc_clocks v)"
  obtain v1 u1 where g1: "VectorClock_get_time v = (v1, u1)" by (cases "VectorClock_get_time v")
  obtain v2 u2 where g2: "VectorClock_get_time v1 = (v2, u2)" by (cases "VectorClock_get_time v1")
  have d1: "is_dict (vc_clocks v1)" by (rule is_dict_get_time [OF g1 v])
  have u1: "timestamps u1 = vc_clocks v1" using VectorClock_get_time_conv [OF g1] by simp
  have "VectorTimeStamp_lt u1 u2 = Inr True"
    by (rule VectorClock_get_time_gt [OF g2 d1]) (simp_all add: u1 d1 frontier_grows_refl)
  with g1 g2 show "let (v1, u1) = VectorClock_get_time v; (v2, u2) = VectorClock_get_time v1
      in VectorTimeStamp_lt u1 u2 = Inr True"
    by simp
qed

text \<open>A vector clock that knows two processes, and a Lamport clock at 0.\<close>

theorem local_monotonicity_witness:
  "is_dict (vc_clocks \<lparr>vc_process_id = 7, vc_clocks = [(7, 2), (9, 1)]\<rparr>) \<and>
   VectorClock_get_time \<lparr>vc_process_id = 7, vc_clocks = [(7, 2), (9, 1)]\<rparr> =
     (\<lparr>vc_process_id = 7, vc_clocks = [(7, 3), (9, 1)]\<rparr>, VectorTimeStamp [(7, 3), (9, 1)]) \<and>
   VectorClock_get_time \<lparr>vc_process_id = 7, vc_clocks = [(7, 3), (9, 1)]\<rparr> =
     (\<lparr>vc_process_id = 7, vc_clocks = [(7, 4), (9, 1)]\<rparr>, VectorTimeStamp [(7, 4), (9, 1)]) \<and>
   VectorTimeStamp_lt (VectorTimeStamp [(7, 3), (9, 1)]) (VectorTimeStamp [(7, 4), (9, 1)]) = Inr True \<and>
   LamportTimeStamp_lt \<lparr>ts_counter = 1, ts_process_id = 7\<rparr> \<lparr>ts_counter = 2, ts_process_id = 7\<rparr>"
  using local_monotonicity [of "\<lparr>lc_process_id = 7, lc_counter = 0\<rparr>"
      "\<lparr>vc_process_id = 7, vc_clocks = [(7, 2), (9, 1)]\<rparr>"]
  by (simp add: clock_eval)



text \<open>
  Claim C3 (restore monotonicity). Take a clock of either kind after any sequence of calls
  (in particular after any number of \<^verbatim>\<open>get_time\<close> calls on a fresh clock) and export it.
  \<^verbatim>\<open>create_from_export\<close> of the bundle succeeds; the restored clock has the process identity
  of the exported one; and its first \<^verbatim>\<open>get_time\<close> is strictly greater than the timestamp
  of the bundle and than every timestamp the exported clock had returned before.
\<close>

theorem restore_monotonicity:
  "(LamportClock_run c0 calls = (c, returned) \<longrightarrow> LamportClock_export c = (c', E) \<longrightarrow>
     (\<exists>c2 ets. LamportClock_create_from_export E uuid4 = Inr c2 \<and> le_ts E = Some ets \<and>
        lc_process_id c2 = lc_process_id c \<and> lc_process_id c2 = lc_process_id c0 \<and>
        (let (c3, t) = LamportClock_get_time c2
         in LamportTimeStamp_lt ets t \<and> (\<forall>h \<in> set returned. LamportTimeStamp_lt h t)))) \<and>
   (is_dict (vc_clocks v0) \<longrightarrow>
    VectorClock_run v0 vcalls = (v, vreturned) \<longrightarrow> VectorClock_export v = (v', F) \<longrightarrow>
     (\<exists>v2 fts. VectorClock_create_from_export F uuid4 = Inr v2 \<and> ve_ts F = Some fts \<and>
        vc_process_id v2 = vc_process_id v \<and> vc_process_id v2 = vc_process_id v0 \<and>
        (let (v3, u) = VectorClock_get_time v2
         in VectorTimeStamp_lt fts u = Inr True \<and>
            (\<forall>h \<in> set vreturned. VectorTimeStamp_lt h u = Inr True))))"
proof (intro conjI impI)
  assume run: "LamportClock_run c0 calls = (c, returned)"
    and ex: "LamportClock_export c = (c', E)"
  from LamportClock_export_conv [OF ex] obtain ets where
    get: "LamportClock_get_time c = (c', ets)" and
    E: "le_pid E = Some (lc_process_id c)" "le_ts E = Some ets" by blast
  note ets = LamportClock_get_time_conv [OF get]
  note inv = LamportClock_inv_run [OF run]
  let ?c2 = "LamportClock_seen_time (LamportClock_init (Some (lc_process_id c)) uuid4) ets"
  have c2: "LamportClock_create_from_export E uuid4 = Inr ?c2"
    by (simp add: LamportClock_create_from_export_def E)
  have pid: "lc_process_id ?c2 = lc_process_id c"
    by (simp add: LamportClock_seen_time_def LamportClock_init_def)
  have pid0: "lc_process_id c = lc_process_id c0"
    using inv by (simp add: LamportClock_inv_def)
  obtain c3 t where get2: "LamportClock_get_time ?c2 = (c3, t)"
    by (cases "LamportClock_get_time ?c2")
  from LamportClock_get_time_conv [OF get2]
  have t: "ts_counter t = max 0 (ts_counter ets) + 1"
    by (simp add: LamportClock_seen_time_def LamportClock_init_def)
  have "LamportTimeStamp_lt ets t" by (rule LamportTimeStamp_lt_counter) (simp add: t)
  moreover have "LamportTimeStamp_lt h t" if "h \<in> set returned" for h
  proof (rule LamportTimeStamp_lt_counter)
    from inv that have "ts_counter h \<le> lc_counter c" by (auto simp: LamportClock_inv_def)
    then show "ts_counter h < ts_counter t" using ets by (simp add: t)
  qed
  ultimately have "let (c3, t) = LamportClock_get_time ?c2
         in LamportTimeStamp_lt ets t \<and> (\<forall>h \<in> set returned. LamportTimeStamp_lt h t)"
    by (simp add: get2)
  with c2 E pid pid0 show "\<exists>c2 ets. LamportClock_create_from_export E uuid4 = Inr c2 \<and> le_ts E = Some ets \<and>
        lc_process_id c2 = lc_process_id c \<and> lc_process_id c2 = lc_process_id c0 \<and>
        (let (c3, t) = LamportClock_get_time c2
         in LamportTimeStamp_lt ets t \<and> (\<forall>h \<in> set returned. LamportTimeStamp_lt h t))"
    by (intro exI [of _ ?c2] exI [of _ ets]) simp
next
  assume v0: "is_dict (vc_clocks v0)"
    and run: "VectorClock_run v0 vcalls = (v, vreturned)"
    and ex: "VectorClock_export v = (v', F)"
  from VectorClock_export_conv [OF ex] obtain fts where
    get: "VectorClock_get_time v = (v', fts)" and
    F: "ve_pid F = Some (vc_process_id v)" "ve_ts F = Some fts" by blast
  note fts = VectorClock_get_time_conv [OF get]
  note inv = VectorClock_inv_run [OF v0 run]
  have dv: "is_dict (vc_clocks v)" using inv by (simp add: VectorClock_inv_def)
  have dfts: "is_dict (timestamps fts)" using is_dict_get_time [OF get dv] fts by simp
  let ?v2 = "VectorClock_seen_time (VectorClock_init (Some (vc_process_id v)) uuid4) fts"
  have v2: "VectorClock_create_from_export F uuid4 = Inr ?v2"
    by (simp add: VectorClock_create_from_export_def F)
  have clocks: "vc_clocks ?v2 = fold seen_item (timestamps fts) []"
    by (simp add: VectorClock_seen_time_def VectorClock_init_def)
  have d2: "is_dict (vc_clocks ?v2)"
    unfolding clocks by (rule is_dict_fold_seen_item) (simp add: is_dict_def)
  have pid: "vc_process_id ?v2 = vc_process_id v"
    by (simp add: VectorClock_seen_time_def VectorClock_init_def)
  have pid0: "vc_process_id v = vc_process_id v0"
    using inv by (simp add: VectorClock_inv_def)
  have grows: "frontier_grows (timestamps fts) (vc_clocks ?v2)"
    unfolding clocks by (rule frontier_grows_seen)
  obtain v3 u where get2: "VectorClock_get_time ?v2 = (v3, u)"
    by (cases "VectorClock_get_time ?v2")
  have "VectorTimeStamp_lt fts u = Inr True"
    by (rule VectorClock_get_time_gt [OF get2 d2 dfts grows])
  moreover have "VectorTimeStamp_lt h u = Inr True" if "h \<in> set vreturned" for h
  proof (rule VectorClock_get_time_gt [OF get2 d2])
    from inv that show "is_dict (timestamps h)" by (auto simp: VectorClock_inv_def)
    from inv that have "frontier_grows (timestamps h) (vc_clocks v)"
      by (auto simp: VectorClock_inv_def)
    then have "frontier_grows (timestamps h) (timestamps fts)"
      using frontier_grows_get_time [OF get] fts by (auto intro: frontier_grows_trans)
    then show "frontier_grows (timestamps h) (vc_clocks ?v2)"
      using grows by (rule frontier_grows_trans)
  qed
  ultimately have "let (v3, u) = VectorClock_get_time ?v2
         in VectorTimeStamp_lt fts u = Inr True \<and>
            (\<forall>h \<in> set vreturned. VectorTimeStamp_lt h u = Inr True)"
    by (simp add: get2)
  with v2 F pid pid0 show "\<exists>v2 fts. VectorClock_create_from_export F uuid4 = Inr v2 \<and> ve_ts F = Some fts \<and>
        vc_process_id v2 = vc_process_id v \<and> vc_process_id v2 = vc_process_id v0 \<and>
        (let (v3, u) = VectorClock_get_time v2
         in VectorTimeStamp_lt fts u = Inr True \<and>
            (\<forall>h \<in> set vreturned. VectorTimeStamp_lt h u = Inr True))"
    by (intro exI [of _ ?v2] exI [of _ fts]) simp
qed

text \<open>
  A fresh clock with identity 1 read three times, exported and restored (the draw 9 of
  \<^verbatim>\<open>uuid4\<close> is not used).
\<close>

theorem restore_monotonicity_witness:
  "LamportClock_run (LamportClock_init (Some 1) 0) [Get_time, Get_time, Get_time] =
     (\<lparr>lc_process_id = 1, lc_counter = 3\<rparr>,
      [\<lparr>ts_counter = 1, ts_process_id = 1\<rparr>, \<lparr>ts_counter = 2, ts_process_id = 1\<rparr>,
       \<lparr>ts_counter = 3, ts_process_id = 1\<rparr>]) \<and>
   LamportClock_export \<lparr>lc_process_id = 1, lc_counter = 3\<rparr> =
     (\<lparr>lc_process_id = 1, lc_counter = 4\<rparr>,
      \<lparr>le_pid = Some 1, le_ts = Some \<lparr>ts_counter = 4, ts_process_id = 1\<rparr>\<rparr>) \<and>
   LamportClock_create_from_export
       \<lparr>le_pid = Some 1, le_ts = Some \<lparr>ts_counter = 4, ts_process_id = 1\<rparr>\<rparr> 9 =
     Inr \<lparr>lc_process_id = 1, lc_counter = 4\<rparr> \<and>
   LamportClock_get_time \<lparr>lc_process_id = 1, lc_counter = 4\<rparr> =
     (\<lparr>lc_process_id = 1, lc_counter = 5\<rparr>, \<lparr>ts_counter = 5, ts_process_id = 1\<rparr>) \<and>
   LamportTimeStamp_lt \<lparr>ts_counter = 3, ts_process_id = 1\<rparr> \<lparr>ts_counter = 5, ts_process_id = 1\<rparr> \<and>
   LamportTimeStamp_lt \<lparr>ts_counter = 4, ts_process_id = 1\<rparr> \<lparr>ts_counter = 5, ts_process_id = 1\<rparr> \<and>
   is_dict (vc_clocks (VectorClock_init (Some 1) 0)) \<and>
   VectorClock_run (VectorClock_init (Some 1) 0) [Get_time, Get_time, Get_time] =
     (\<lparr>vc_process_id = 1, vc_clocks = [(1, 3)]\<rparr>,
      [VectorTimeStamp [(1, 1)], VectorTimeStamp [(1, 2)], VectorTimeStamp [(1, 3)]]) \<and>
   VectorClock_export \<lparr>vc_process_id = 1, vc_clocks = [(1, 3)]\<rparr> =
     (\<lparr>vc_process_id = 1, vc_clocks = [(1, 4)]\<rparr>,
      \<lparr>ve_pid = Some 1, ve_ts = Some (VectorTimeStamp [(1, 4)])\<rparr>) \<and>
   VectorClock_create_from_export \<lparr>ve_pid = Some 1, ve_ts = Some (VectorTimeStamp [(1, 4)])\<rparr> 9 =
     Inr \<lparr>vc_process_id = 1, vc_clocks = [(1, 4)]\<rparr> \<and>
   VectorClock_get_time \<lparr>vc_process_id = 1, vc_clocks = [(1, 4)]\<rparr> =
     (\<lparr>vc_process_id = 1, vc_clocks = [(1, 5)]\<rparr>, VectorTimeStamp [(1, 5)]) \<and>
   VectorTimeStamp_lt (VectorTimeStamp [(1, 3)]) (VectorTimeStamp [(1, 5)]) = Inr True \<and>
   VectorTimeStamp_lt (VectorTimeStamp [(1, 4)]) (VectorTimeStamp [(1, 5)]) = Inr True"
  using restore_monotonicity [of "LamportClock_init (Some 1) 0" "[Get_time, Get_time, Get_time]"
      "\<lparr>lc_process_id = 1, lc_counter = 3\<rparr>"
      "[\<lparr>ts_counter = 1, ts_process_id = 1\<rparr>, \<lparr>ts_counter = 2, ts_process_id = 1\<rparr>,
       \<lparr>ts_counter = 3, ts_process_id = 1\<rparr>]"
      "\<lparr>lc_process_id = 1, lc_counter = 4\<rparr>"
      "\<lparr>le_pid = Some 1, le_ts = Some \<lparr>ts_counter = 4, ts_process_id = 1\<rparr>\<rparr>" 9
      "VectorClock_init (Some 1) 0" "[Get_time, Get_time, Get_time]"
      "\<lparr>vc_process_id = 1, vc_clocks = [(1, 3)]\<rparr>"
      "[VectorTimeStamp [(1, 1)], VectorTimeStamp [(1, 2)], VectorTimeStamp [(1, 3)]]"
      "\<lparr>vc_process_id = 1, vc_clocks = [(1, 4)]\<rparr>"
      "\<lparr>ve_pid = Some 1, ve_ts = Some (VectorTimeStamp [(1, 4)])\<rparr>"]
  by (simp add: clock_eval)

text \<open>
  Claim C4 (vector comparison rule), as amended. For dictionaries \<open>A\<close> and \<open>B\<close>,
  \<^verbatim>\<open>A < B\<close> returns \<^verbatim>\<open>True\<close> exactly when every key of \<open>A\<close> is a key of \<open>B\<close>, \<open>A \<le> B\<close>
  in the sense of the specification and \<open>A \<noteq> B\<close>; the comparison raises nothing. A key
  of \<open>A\<close> that \<open>B\<close> lacks is not read as 0: it makes the answer \<^verbatim>\<open>False\<close>. Python's
  \<^verbatim>\<open>!=\<close> on the two dictionaries is inequality of the mappings.
\<close>

theorem vector_comparison_rule:
  assumes "is_dict (timestamps A)" and "is_dict (timestamps B)"
  shows "VectorTimeStamp_lt A B =
      Inr (dict_keys (timestamps A) \<subseteq> dict_keys (timestamps B) \<and>
           spec_vector_lt (timestamps A) (timestamps B)) \<and>
    (dict_eq (timestamps A) (timestamps B) \<longleftrightarrow> map_of (timestamps A) = map_of (timestamps B))"
proof (cases "dict_keys (timestamps A) \<subseteq> dict_keys (timestamps B)")
  case True
  with assms show ?thesis
    by (simp add: VectorTimeStamp_lt_iff spec_vector_lt_def spec_vector_le_iff dict_eq_map_of)
next
  case False
  with assms show ?thesis
    by (simp add: VectorTimeStamp_lt_def dict_eq_map_of)
qed

text \<open>
  The scenario of the specification: \<open>{B: 1} < {A: 3, B: 1}\<close>, with 1 for A and 2 for B.
\<close>

theorem vector_comparison_rule_witness:
  "is_dict (timestamps (VectorTimeStamp [(2, 1)])) \<and>
   is_dict (timestamps (VectorTimeStamp [(1, 3), (2, 1)])) \<and>
   dict_keys [(2, 1)] \<subseteq> dict_keys [(1, 3), (2, 1)] \<and>
   spec_vector_lt [(2, 1)] [(1, 3), (2, 1)] \<and>
   VectorTimeStamp_lt (VectorTimeStamp [(2, 1)]) (VectorTimeStamp [(1, 3), (2, 1)]) = Inr True"
  using vector_comparison_rule [of "VectorTimeStamp [(2, 1)]" "VectorTimeStamp [(1, 3), (2, 1)]"]
  by (simp add: clock_eval spec_vector_lt_def spec_vector_le_def)

text \<open>
  The claim as stated fails: \<open>A = {1: 0}\<close> and \<open>B = {}\<close> satisfy \<open>A \<le> B\<close> and
  \<open>A < B\<close> in the words of the specification (the zero entry of the key absent from
  \<open>B\<close>), yet \<^verbatim>\<open>__lt__\<close> returns \<^verbatim>\<open>False\<close>, since \<open>A\<close>'s keys are no subset of \<open>B\<close>'s.
\<close>

theorem vector_comparison_rule_counterexample:
  "spec_vector_le [(1, 0)] [] \<and> spec_vector_lt [(1, 0)] [] \<and>
   VectorTimeStamp_lt (VectorTimeStamp [(1, 0)]) (VectorTimeStamp []) = Inr False"
  by (simp add: clock_eval spec_vector_lt_def spec_vector_le_def)

text \<open>
  Claim C5 (scalar totality). Two Lamport timestamps with distinct process identities are
  never equal, and exactly one of \<open>t1 < t2\<close> and \<open>t2 < t1\<close> holds. The order compares the
  counters first and, when they are equal, the process identities in their linear order.
  Hence any two timestamps returned by two clocks constructed with distinct identities are
  comparable, whatever calls the two clocks have served.
\<close>

theorem scalar_totality:
  "(ts_process_id t1 \<noteq> ts_process_id t2 \<longrightarrow>
      (LamportTimeStamp_lt t1 t2 \<noteq> LamportTimeStamp_lt t2 t1) \<and> t1 \<noteq> t2) \<and>
   (LamportTimeStamp_lt t1 t2 \<longleftrightarrow>
      ts_counter t1 < ts_counter t2 \<or>
      (ts_counter t1 = ts_counter t2 \<and> ts_process_id t1 < ts_process_id t2)) \<and>
   (lc_process_id (LamportClock_init o1 u1) \<noteq> lc_process_id (LamportClock_init o2 u2) \<longrightarrow>
    LamportClock_run (LamportClock_init o1 u1) calls1 = (c1, returned1) \<longrightarrow>
    LamportClock_run (LamportClock_init o2 u2) calls2 = (c2, returned2) \<longrightarrow>
      (\<forall>a \<in> set returned1. \<forall>b \<in> set returned2.
         (LamportTimeStamp_lt a b \<noteq> LamportTimeStamp_lt b a) \<and> a \<noteq> b))"
proof (intro conjI impI ballI)
  show "LamportTimeStamp_lt t1 t2 \<longleftrightarrow>
      ts_counter t1 < ts_counter t2 \<or>
      (ts_counter t1 = ts_counter t2 \<and> ts_process_id t1 < ts_process_id t2)"
    by (auto simp: LamportTimeStamp_lt_def)
next
  assume "ts_process_id t1 \<noteq> ts_process_id t2"
  then show "LamportTimeStamp_lt t1 t2 \<noteq> LamportTimeStamp_lt t2 t1" and "t1 \<noteq> t2"
    by (auto simp: LamportTimeStamp_lt_def)
next
  fix a b
  assume ne: "lc_process_id (LamportClock_init o1 u1) \<noteq> lc_process_id (LamportClock_init o2 u2)"
    and r1: "LamportClock_run (LamportClock_init o1 u1) calls1 = (c1, returned1)"
    and r2: "LamportClock_run (LamportClock_init o2 u2) calls2 = (c2, returned2)"
    and a: "a \<in> set returned1" and b: "b \<in> set returned2"
  from LamportClock_inv_run [OF r1] a
  have "ts_process_id a = lc_process_id (LamportClock_init o1 u1)"
    by (auto simp: LamportClock_inv_def)
  moreover from LamportClock_inv_run [OF r2] b
  have "ts_process_id b = lc_process_id (LamportClock_init o2 u2)"
    by (auto simp: LamportClock_inv_def)
  ultimately have "ts_process_id a \<noteq> ts_process_id b" using ne by simp
  then show "LamportTimeStamp_lt a b \<noteq> LamportTimeStamp_lt b a" and "a \<noteq> b"
    by (auto simp: LamportTimeStamp_lt_def)
qed

text \<open>
  Two fresh clocks whose identities 1 and 2 were drawn, each read once.
\<close>

theorem scalar_totality_witness:
  "ts_process_id \<lparr>ts_counter = 1, ts_process_id = 1\<rparr> \<noteq> ts_process_id \<lparr>ts_counter = 1, ts_process_id = 2\<rparr> \<and>
   LamportClock_run (LamportClock_init None 1) [Get_time] =
     (\<lparr>lc_process_id = 1, lc_counter = 1\<rparr>, [\<lparr>ts_counter = 1, ts_process_id = 1\<rparr>]) \<and>
   LamportClock_run (LamportClock_init None 2) [Get_time] =
     (\<lparr>lc_process_id = 2, lc_counter = 1\<rparr>, [\<lparr>ts_counter = 1, ts_process_id = 2\<rparr>]) \<and>
   LamportTimeStamp_lt \<lparr>ts_counter = 1, ts_process_id = 1\<rparr> \<lparr>ts_counter = 1, ts_process_id = 2\<rparr> \<and>
   \<not> LamportTimeStamp_lt \<lparr>ts_counter = 1, ts_process_id = 2\<rparr> \<lparr>ts_counter = 1, ts_process_id = 1\<rparr>"
  using scalar_totality [of "\<lparr>ts_counter = 1, ts_process_id = 1\<rparr>" "\<lparr>ts_counter = 1, ts_process_id = 2\<rparr>"
      None 1 None 2 "[Get_time]" "\<lparr>lc_process_id = 1, lc_counter = 1\<rparr>"
      "[\<lparr>ts_counter = 1, ts_process_id = 1\<rparr>]" "[Get_time]" "\<lparr>lc_process_id = 2, lc_counter = 1\<rparr>"
      "[\<lparr>ts_counter = 1, ts_process_id = 2\<rparr>]"]
  by (simp add: clock_eval)

text \<open>
  Claim C6 (vector independence). The first timestamps of two freshly constructed vector
  clocks with distinct process identities are incomparable: \<^verbatim>\<open>t1 < t2\<close> and \<^verbatim>\<open>t2 < t1\<close>
  both return \<^verbatim>\<open>False\<close>, without raising, and \<^verbatim>\<open>t1 != t2\<close>.
\<close>

theorem vector_independence:
  assumes "vc_process_id (VectorClock_init o1 u1) \<noteq> vc_process_id (VectorClock_init o2 u2)"
    and "VectorClock_get_time (VectorClock_init o1 u1) = (c1, t1)"
    and "VectorClock_get_time (VectorClock_init o2 u2) = (c2, t2)"
  shows "VectorTimeStamp_lt t1 t2 = Inr False \<and> VectorTimeStamp_lt t2 t1 = Inr False \<and>
    \<not> VectorTimeStamp_eq t1 t2 \<and> t1 \<noteq> t2"
proof -
  let ?p1 = "vc_process_id (VectorClock_init o1 u1)" and ?p2 = "vc_process_id (VectorClock_init o2 u2)"
  from assms(2) have t1: "t1 = VectorTimeStamp [(?p1, 1)]"
    by (auto simp: clock_eval)
  from assms(3) have t2: "t2 = VectorTimeStamp [(?p2, 1)]"
    by (auto simp: clock_eval)
  from assms(1) show ?thesis
    unfolding t1 t2 by (auto simp: VectorTimeStamp_lt_def VectorTimeStamp_eq_def dict_keys_def dict_eq_def)
qed

text \<open>
  Two fresh vector clocks whose identities 1 and 2 were drawn.
\<close>

theorem vector_independence_witness:
  "vc_process_id (VectorClock_init None 1) \<noteq> vc_process_id (VectorClock_init None 2) \<and>
   VectorClock_get_time (VectorClock_init None 1) =
     (\<lparr>vc_process_id = 1, vc_clocks = [(1, 1)]\<rparr>, VectorTimeStamp [(1, 1)]) \<and>
   VectorClock_get_time (VectorClock_init None 2) =
     (\<lparr>vc_process_id = 2, vc_clocks = [(2, 1)]\<rparr>, VectorTimeStamp [(2, 1)]) \<and>
   VectorTimeStamp_lt (VectorTimeStamp [(1, 1)]) (VectorTimeStamp [(2, 1)]) = Inr False \<and>
   VectorTimeStamp_lt (VectorTimeStamp [(2, 1)]) (VectorTimeStamp [(1, 1)]) = Inr False \<and>
   \<not> VectorTimeStamp_eq (VectorTimeStamp [(1, 1)]) (VectorTimeStamp [(2, 1)])"
  using vector_independence [of None 1 None 2 "\<lparr>vc_process_id = 1, vc_clocks = [(1, 1)]\<rparr>"
      "VectorTimeStamp [(1, 1)]" "\<lparr>vc_process_id = 2, vc_clocks = [(2, 1)]\<rparr>" "VectorTimeStamp [(2, 1)]"]
  by (simp add: clock_eval)

text \<open>
  Claim C7 (observe is idempotent and commutative). For a Lamport clock, seeing \<open>ta\<close>
  twice gives the state that seeing it once gives, and seeing \<open>ta\<close> then \<open>tb\<close> gives the
  state that seeing \<open>tb\<close> then \<open>ta\<close> gives. For a vector clock, seeing \<open>Ta\<close> twice gives
  the very state of seeing it once; seeing \<open>Ta\<close> then \<open>Tb\<close>, or \<open>Tb\<close> then \<open>Ta\<close>, gives the
  same process identity and frontiers that are equal as dictionaries (\<^verbatim>\<open>==\<close>), that is
  the same mapping; only the order of insertion of the keys may differ.
\<close>

theorem observe_idempotent_commutative:
  "LamportClock_seen_time (LamportClock_seen_time c ta) ta = LamportClock_seen_time c ta \<and>
   LamportClock_seen_time (LamportClock_seen_time c ta) tb =
     LamportClock_seen_time (LamportClock_seen_time c tb) ta \<and>
   VectorClock_seen_time (VectorClock_seen_time v Ta) Ta = VectorClock_seen_time v Ta \<and>
   (is_dict (vc_clocks v) \<longrightarrow> is_dict (timestamps Ta) \<longrightarrow> is_dict (timestamps Tb) \<longrightarrow>
      vc_process_id (VectorClock_seen_time (VectorClock_seen_time v Ta) Tb) =
        vc_process_id (VectorClock_seen_time (VectorClock_seen_time v Tb) Ta) \<and>
      dict_eq (vc_clocks (VectorClock_seen_time (VectorClock_seen_time v Ta) Tb))
        (vc_clocks (VectorClock_seen_time (VectorClock_seen_time v Tb) Ta)) \<and>
      map_of (vc_clocks (VectorClock_seen_time (VectorClock_seen_time v Ta) Tb)) =
        map_of (vc_clocks (VectorClock_seen_time (VectorClock_seen_time v Tb) Ta)))"
proof (intro conjI impI)
  show "LamportClock_seen_time (LamportClock_seen_time c ta) ta = LamportClock_seen_time c ta"
    by (simp add: LamportClock_seen_time_def)
  show "LamportClock_seen_time (LamportClock_seen_time c ta) tb =
     LamportClock_seen_time (LamportClock_seen_time c tb) ta"
    by (simp add: LamportClock_seen_time_def max.assoc max.commute max.left_commute)
  show "VectorClock_seen_time (VectorClock_seen_time v Ta) Ta = VectorClock_seen_time v Ta"
    by (simp add: VectorClock_seen_time_def fold_seen_item_idem)
next
  show "vc_process_id (VectorClock_seen_time (VectorClock_seen_time v Ta) Tb) =
        vc_process_id (VectorClock_seen_time (VectorClock_seen_time v Tb) Ta)"
    by (simp add: VectorClock_seen_time_def)
next
  assume v: "is_dict (vc_clocks v)" and a: "is_dict (timestamps Ta)" and b: "is_dict (timestamps Tb)"
  show m: "map_of (vc_clocks (VectorClock_seen_time (VectorClock_seen_time v Ta) Tb)) =
        map_of (vc_clocks (VectorClock_seen_time (VectorClock_seen_time v Tb) Ta))"
    by (simp add: VectorClock_seen_time_def map_of_seen_twice [OF a b])
  have "is_dict (vc_clocks (VectorClock_seen_time (VectorClock_seen_time v Ta) Tb))"
    "is_dict (vc_clocks (VectorClock_seen_time (VectorClock_seen_time v Tb) Ta))"
    using v by (simp_all add: VectorClock_seen_time_def is_dict_fold_seen_item)
  then show "dict_eq (vc_clocks (VectorClock_seen_time (VectorClock_seen_time v Ta) Tb))
        (vc_clocks (VectorClock_seen_time (VectorClock_seen_time v Tb) Ta))"
    using m by (simp add: dict_eq_map_of)
qed

text \<open>
  Two timestamps that share the key 2: the two orders insert the keys 2 and 3 in different
  order and end in equal dictionaries.
\<close>

theorem observe_idempotent_commutative_witness:
  "is_dict (vc_clocks \<lparr>vc_process_id = 1, vc_clocks = [(1, 2)]\<rparr>) \<and>
   is_dict (timestamps (VectorTimeStamp [(2, 5), (1, 1)])) \<and>
   is_dict (timestamps (VectorTimeStamp [(3, 4), (2, 7)])) \<and>
   VectorClock_seen_time (VectorClock_seen_time \<lparr>vc_process_id = 1, vc_clocks = [(1, 2)]\<rparr>
       (VectorTimeStamp [(2, 5), (1, 1)])) (VectorTimeStamp [(3, 4), (2, 7)]) =
     \<lparr>vc_process_id = 1, vc_clocks = [(1, 2), (2, 7), (3, 4)]\<rparr> \<and>
   VectorClock_seen_time (VectorClock_seen_time \<lparr>vc_process_id = 1, vc_clocks = [(1, 2)]\<rparr>
       (VectorTimeStamp [(3, 4), (2, 7)])) (VectorTimeStamp [(2, 5), (1, 1)]) =
     \<lparr>vc_process_id = 1, vc_clocks = [(1, 2), (3, 4), (2, 7)]\<rparr> \<and>
   dict_eq [(1, 2), (2, 7), (3, 4)] [(1, 2), (3, 4), (2, 7)]"
  using observe_idempotent_commutative [of "\<lparr>lc_process_id = 1, lc_counter = 0\<rparr>"
      "\<lparr>ts_counter = 1, ts_process_id = 2\<rparr>" "\<lparr>ts_counter = 2, ts_process_id = 3\<rparr>"
      "\<lparr>vc_process_id = 1, vc_clocks = [(1, 2)]\<rparr>"
      "VectorTimeStamp [(2, 5), (1, 1)]" "VectorTimeStamp [(3, 4), (2, 7)]"]
  by (simp add: clock_eval)

text \<open>
  Claim C8 (frontier growth). \<^verbatim>\<open>get_time\<close>, \<^verbatim>\<open>seen_time\<close> and \<^verbatim>\<open>export\<close> leave every key
  of the frontier in place with a value at least its previous one, and so does any
  sequence of calls. The clock that \<^verbatim>\<open>create_from_export\<close> builds starts from the empty
  frontier of a new clock and ends with every key of the bundle's timestamp, at a value
  at least the bundle's.
\<close>

theorem frontier_growth:
  "(VectorClock_get_time c = (c1, t) \<longrightarrow> frontier_grows (vc_clocks c) (vc_clocks c1)) \<and>
   frontier_grows (vc_clocks c) (vc_clocks (VectorClock_seen_time c ts)) \<and>
   (VectorClock_export c = (c2, e) \<longrightarrow> frontier_grows (vc_clocks c) (vc_clocks c2)) \<and>
   (VectorClock_create_from_export b uuid4 = Inr r \<longrightarrow>
      frontier_grows (vc_clocks (VectorClock_init (ve_pid b) uuid4)) (vc_clocks r) \<and>
      (\<exists>bts. ve_ts b = Some bts \<and> frontier_grows (timestamps bts) (vc_clocks r))) \<and>
   (VectorClock_run c calls = (c3, returned) \<longrightarrow> frontier_grows (vc_clocks c) (vc_clocks c3))"
proof (intro conjI impI)
  assume "VectorClock_get_time c = (c1, t)"
  then show "frontier_grows (vc_clocks c) (vc_clocks c1)" by (rule frontier_grows_get_time)
next
  show "frontier_grows (vc_clocks c) (vc_clocks (VectorClock_seen_time c ts))"
    by (simp add: VectorClock_seen_time_def frontier_grows_fold_seen_item)
next
  assume "VectorClock_export c = (c2, e)"
  then show "frontier_grows (vc_clocks c) (vc_clocks c2)"
    by (auto dest!: VectorClock_export_conv intro: frontier_grows_get_time)
next
  assume "VectorClock_create_from_export b uuid4 = Inr r"
  then show "frontier_grows (vc_clocks (VectorClock_init (ve_pid b) uuid4)) (vc_clocks r)"
    by (simp add: VectorClock_init_def frontier_grows_Nil)
next
  assume "VectorClock_create_from_export b uuid4 = Inr r"
  then show "\<exists>bts. ve_ts b = Some bts \<and> frontier_grows (timestamps bts) (vc_clocks r)"
    by (auto simp: VectorClock_create_from_export_def VectorClock_seen_time_def
        frontier_grows_seen split: option.splits)
next
  assume "VectorClock_run c calls = (c3, returned)"
  then show "frontier_grows (vc_clocks c) (vc_clocks c3)"
  proof (induction calls arbitrary: c3 returned rule: rev_induct)
    case Nil
    then show ?case by (simp add: VectorClock_run_def frontier_grows_refl)
  next
    case (snoc call calls)
    obtain c' r' where s: "VectorClock_run c calls = (c', r')" by (cases "VectorClock_run c calls")
    from snoc.prems s have step: "VectorClock_call (c', r') call = (c3, returned)"
      by (simp add: VectorClock_run_def)
    have "frontier_grows (vc_clocks c') (vc_clocks c3)"
    proof (cases call)
      case Get_time
      with step show ?thesis by (auto split: prod.splits intro: frontier_grows_get_time)
    next
      case (Seen_time x)
      with step show ?thesis
        by (auto simp: VectorClock_seen_time_def frontier_grows_fold_seen_item)
    next
      case Export
      with step show ?thesis
        by (auto split: prod.splits dest!: VectorClock_export_conv intro: frontier_grows_get_time)
    qed
    with snoc.IH [OF s] show ?case by (rule frontier_grows_trans)
  qed
qed

text \<open>
  A clock of process 1 that knows process 2.
\<close>

theorem frontier_growth_witness:
  "VectorClock_get_time \<lparr>vc_process_id = 1, vc_clocks = [(1, 2), (2, 1)]\<rparr> =
     (\<lparr>vc_process_id = 1, vc_clocks = [(1, 3), (2, 1)]\<rparr>, VectorTimeStamp [(1, 3), (2, 1)]) \<and>
   frontier_grows [(1, 2), (2, 1)] [(1, 3), (2, 1)] \<and>
   vc_clocks (VectorClock_seen_time \<lparr>vc_process_id = 1, vc_clocks = [(1, 2), (2, 1)]\<rparr>
       (VectorTimeStamp [(2, 4), (3, 1)])) = [(1, 2), (2, 4), (3, 1)] \<and>
   frontier_grows [(1, 2), (2, 1)] [(1, 2), (2, 4), (3, 1)] \<and>
   VectorClock_export \<lparr>vc_process_id = 1, vc_clocks = [(1, 2), (2, 1)]\<rparr> =
     (\<lparr>vc_process_id = 1, vc_clocks = [(1, 3), (2, 1)]\<rparr>,
      \<lparr>ve_pid = Some 1, ve_ts = Some (VectorTimeStamp [(1, 3), (2, 1)])\<rparr>) \<and>
   VectorClock_create_from_export
       \<lparr>ve_pid = Some 1, ve_ts = Some (VectorTimeStamp [(1, 3), (2, 1)])\<rparr> 9 =
     Inr \<lparr>vc_process_id = 1, vc_clocks = [(1, 3), (2, 1)]\<rparr> \<and>
   VectorClock_run \<lparr>vc_process_id = 1, vc_clocks = [(1, 2), (2, 1)]\<rparr>
       [Seen_time (VectorTimeStamp [(2, 4), (3, 1)]), Get_time] =
     (\<lparr>vc_process_id = 1, vc_clocks = [(1, 3), (2, 4), (3, 1)]\<rparr>,
      [VectorTimeStamp [(1, 3), (2, 4), (3, 1)]]) \<and>
   frontier_grows [(1, 2), (2, 1)] [(1, 3), (2, 4), (3, 1)]"
  using frontier_growth [of "\<lparr>vc_process_id = 1, vc_clocks = [(1, 2), (2, 1)]\<rparr>"
      "\<lparr>vc_process_id = 1, vc_clocks = [(1, 3), (2, 1)]\<rparr>" "VectorTimeStamp [(1, 3), (2, 1)]"
      "VectorTimeStamp [(2, 4), (3, 1)]"
      "\<lparr>vc_process_id = 1, vc_clocks = [(1, 3), (2, 1)]\<rparr>"
      "\<lparr>ve_pid = Some 1, ve_ts = Some (VectorTimeStamp [(1, 3), (2, 1)])\<rparr>"
      "\<lparr>ve_pid = Some 1, ve_ts = Some (VectorTimeStamp [(1, 3), (2, 1)])\<rparr>" 9
      "\<lparr>vc_process_id = 1, vc_clocks = [(1, 3), (2, 1)]\<rparr>"
      "[Seen_time (VectorTimeStamp [(2, 4), (3, 1)]), Get_time]"
      "\<lparr>vc_process_id = 1, vc_clocks = [(1, 3), (2, 4), (3, 1)]\<rparr>"
      "[VectorTimeStamp [(1, 3), (2, 4), (3, 1)]]"]
  by (simp add: clock_eval)

text \<open>
  Claim C9 (malformed bundle), as amended. \<^verbatim>\<open>create_from_export\<close> validates nothing. For
  either clock kind, a bundle whose timestamp is \<^verbatim>\<open>None\<close> fails at restore time with the
  \<^verbatim>\<open>AttributeError\<close> raised when \<^verbatim>\<open>seen_time\<close> reads the timestamp; a bundle that has a
  timestamp always restores to a clock, under the bundle's identity or, when that is
  \<^verbatim>\<open>None\<close>, under a newly drawn one.
\<close>

theorem restore_malformed_bundle:
  "(le_ts e = None \<longrightarrow> LamportClock_create_from_export e uuid4 = Inl AttributeError) \<and>
   (le_ts e = Some t \<longrightarrow>
      LamportClock_create_from_export e uuid4 =
        Inr \<lparr>lc_process_id = (case le_pid e of None \<Rightarrow> uuid4 | Some p \<Rightarrow> p),
             lc_counter = max 0 (ts_counter t)\<rparr>) \<and>
   (ve_ts b = None \<longrightarrow> VectorClock_create_from_export b uuid4 = Inl AttributeError) \<and>
   (ve_ts b = Some T \<longrightarrow>
      VectorClock_create_from_export b uuid4 =
        Inr \<lparr>vc_process_id = (case ve_pid b of None \<Rightarrow> uuid4 | Some p \<Rightarrow> p),
             vc_clocks = fold seen_item (timestamps T) []\<rparr>)"
  by (simp add: LamportClock_create_from_export_def LamportClock_init_def LamportClock_seen_time_def
      VectorClock_create_from_export_def VectorClock_init_def VectorClock_seen_time_def)

text \<open>
  A bundle without timestamp and a complete bundle, for each clock kind.
\<close>

theorem restore_malformed_bundle_witness:
  "le_ts \<lparr>le_pid = Some 1, le_ts = None\<rparr> = None \<and>
   LamportClock_create_from_export \<lparr>le_pid = Some 1, le_ts = None\<rparr> 7 = Inl AttributeError \<and>
   ve_ts \<lparr>ve_pid = None, ve_ts = None\<rparr> = None \<and>
   VectorClock_create_from_export \<lparr>ve_pid = None, ve_ts = None\<rparr> 7 = Inl AttributeError \<and>
   le_ts \<lparr>le_pid = Some 1, le_ts = Some \<lparr>ts_counter = 4, ts_process_id = 1\<rparr>\<rparr> =
     Some \<lparr>ts_counter = 4, ts_process_id = 1\<rparr> \<and>
   LamportClock_create_from_export
       \<lparr>le_pid = Some 1, le_ts = Some \<lparr>ts_counter = 4, ts_process_id = 1\<rparr>\<rparr> 7 =
     Inr \<lparr>lc_process_id = 1, lc_counter = 4\<rparr> \<and>
   ve_ts \<lparr>ve_pid = Some 1, ve_ts = Some (VectorTimeStamp [(1, 4), (2, 3)])\<rparr> =
     Some (VectorTimeStamp [(1, 4), (2, 3)]) \<and>
   VectorClock_create_from_export
       \<lparr>ve_pid = Some 1, ve_ts = Some (VectorTimeStamp [(1, 4), (2, 3)])\<rparr> 7 =
     Inr \<lparr>vc_process_id = 1, vc_clocks = [(1, 4), (2, 3)]\<rparr>"
  using restore_malformed_bundle [of "\<lparr>le_pid = Some 1, le_ts = None\<rparr>" 7
      "\<lparr>ts_counter = 4, ts_process_id = 1\<rparr>" "\<lparr>ve_pid = None, ve_ts = None\<rparr>"
      "VectorTimeStamp [(1, 4), (2, 3)]"]
    restore_malformed_bundle [of
      "\<lparr>le_pid = Some 1, le_ts = Some \<lparr>ts_counter = 4, ts_process_id = 1\<rparr>\<rparr>" 7
      "\<lparr>ts_counter = 4, ts_process_id = 1\<rparr>"
      "\<lparr>ve_pid = Some 1, ve_ts = Some (VectorTimeStamp [(1, 4), (2, 3)])\<rparr>"
      "VectorTimeStamp [(1, 4), (2, 3)]"]
  by (simp add: clock_eval)

text \<open>
  The claim as stated fails: restoring a bundle whose process identity is \<^verbatim>\<open>None\<close> raises
  nothing and constructs a clock, under the identity 7 that \<^verbatim>\<open>uuid4\<close> draws.
\<close>

theorem restore_malformed_bundle_counterexample:
  "le_pid \<lparr>le_pid = None, le_ts = Some \<lparr>ts_counter = 5, ts_process_id = 1\<rparr>\<rparr> = None \<and>
   LamportClock_create_from_export
       \<lparr>le_pid = None, le_ts = Some \<lparr>ts_counter = 5, ts_process_id = 1\<rparr>\<rparr> 7 =
     Inr \<lparr>lc_process_id = 7, lc_counter = 5\<rparr> \<and>
   ve_pid \<lparr>ve_pid = None, ve_ts = Some (VectorTimeStamp [(1, 5)])\<rparr> = None \<and>
   VectorClock_create_from_export \<lparr>ve_pid = None, ve_ts = Some (VectorTimeStamp [(1, 5)])\<rparr> 7 =
     Inr \<lparr>vc_process_id = 7, vc_clocks = [(1, 5)]\<rparr>"
  by (simp add: clock_eval)

text \<open>
  Claim C10 (strict partial order). On arbitrary dictionaries, \<^verbatim>\<open><\<close> of vector timestamps
  is irreflexive, transitive and asymmetric.
\<close>

theorem vector_lt_strict_partial_order:
  assumes "is_dict (timestamps A)" and "is_dict (timestamps B)" and "is_dict (timestamps C)"
  shows "VectorTimeStamp_lt A A = Inr False \<and>
    (VectorTimeStamp_lt A B = Inr True \<longrightarrow> VectorTimeStamp_lt B C = Inr True \<longrightarrow>
       VectorTimeStamp_lt A C = Inr True) \<and>
    \<not> (VectorTimeStamp_lt A B = Inr True \<and> VectorTimeStamp_lt B A = Inr True)"
proof (intro conjI impI)
  show "VectorTimeStamp_lt A A = Inr False"
    by (simp add: VectorTimeStamp_lt_iff [OF assms(1) assms(1)])
next
  assume "VectorTimeStamp_lt A B = Inr True" and "VectorTimeStamp_lt B C = Inr True"
  then have ab: "frontier_grows (timestamps A) (timestamps B)"
    and nab: "map_of (timestamps A) \<noteq> map_of (timestamps B)"
    and bc: "frontier_grows (timestamps B) (timestamps C)"
    by (simp_all add: VectorTimeStamp_lt_iff assms)
  from ab bc have ac: "frontier_grows (timestamps A) (timestamps C)"
    by (rule frontier_grows_trans)
  have "map_of (timestamps A) \<noteq> map_of (timestamps C)"
  proof
    assume eq: "map_of (timestamps A) = map_of (timestamps C)"
    with bc have "frontier_grows (timestamps B) (timestamps A)"
      by (simp add: frontier_grows_iff)
    with ab have "map_of (timestamps A) = map_of (timestamps B)"
      by (rule frontier_grows_antisym)
    with nab show False by contradiction
  qed
  with ac show "VectorTimeStamp_lt A C = Inr True"
    by (simp add: VectorTimeStamp_lt_iff assms)
next
  show "\<not> (VectorTimeStamp_lt A B = Inr True \<and> VectorTimeStamp_lt B A = Inr True)"
    by (auto simp: VectorTimeStamp_lt_iff assms dest: frontier_grows_antisym)
qed

text \<open>
  A chain \<open>{1: 1} < {1: 2} < {2: 1, 1: 2}\<close>.
\<close>

theorem vector_lt_strict_partial_order_witness:
  "is_dict (timestamps (VectorTimeStamp [(1, 1)])) \<and>
   is_dict (timestamps (VectorTimeStamp [(1, 2)])) \<and>
   is_dict (timestamps (VectorTimeStamp [(2, 1), (1, 2)])) \<and>
   VectorTimeStamp_lt (VectorTimeStamp [(1, 1)]) (VectorTimeStamp [(1, 1)]) = Inr False \<and>
   VectorTimeStamp_lt (VectorTimeStamp [(1, 1)]) (VectorTimeStamp [(1, 2)]) = Inr True \<and>
   VectorTimeStamp_lt (VectorTimeStamp [(1, 2)]) (VectorTimeStamp [(2, 1), (1, 2)]) = Inr True \<and>
   VectorTimeStamp_lt (VectorTimeStamp [(1, 1)]) (VectorTimeStamp [(2, 1), (1, 2)]) = Inr True \<and>
   VectorTimeStamp_lt (VectorTimeStamp [(1, 2)]) (VectorTimeStamp [(1, 1)]) = Inr False"
  using vector_lt_strict_partial_order [of "VectorTimeStamp [(1, 1)]" "VectorTimeStamp [(1, 2)]"
      "VectorTimeStamp [(2, 1), (1, 2)]"]
  by (simp add: clock_eval)

end
